theory Spec2Isabelle
  imports Complex_Main "HOL-Library.Char_ord" "HOL-Library.Sublist"
begin

section \<open>Strings and characters\<close>

text \<open>
  A Python \<open>str\<close> is modelled as a \<open>string\<close>, a list of 8-bit characters read as
  the code points U+0000 .. U+00FF. On that range the character classes below are the
  ones CPython uses for \<open>str\<close> patterns and methods: \<open>\s\<close> and \<open>str.strip\<close> use
  \<open>Py_UNICODE_ISSPACE\<close>, \<open>\w\<close> is \<open>Py_UNICODE_ISALNUM\<close> or the underscore, \<open>\d\<close> is
  \<open>Py_UNICODE_ISDECIMAL\<close>, and \<open>str.lower\<close> maps each upper-case letter of the range to
  the letter 32 code points above it. Python floats are modelled as reals.
\<close>

definition between :: "char \<Rightarrow> char \<Rightarrow> char \<Rightarrow> bool" where
  "between lo hi c = (lo \<le> c \<and> c \<le> hi)"

definition is_space :: "char \<Rightarrow> bool" where
  "is_space c = (between (CHR 0x09) (CHR 0x0D) c \<or> between (CHR 0x1C) (CHR 0x20) c
                 \<or> c = CHR 0x85 \<or> c = CHR 0xA0)"

definition is_decimal :: "char \<Rightarrow> bool" where
  "is_decimal c = between CHR ''0'' CHR ''9'' c"

definition is_upper :: "char \<Rightarrow> bool" where
  "is_upper c = (between CHR ''A'' CHR ''Z'' c \<or> between (CHR 0xC0) (CHR 0xD6) c
                 \<or> between (CHR 0xD8) (CHR 0xDE) c)"

definition is_alpha :: "char \<Rightarrow> bool" where
  "is_alpha c = (between CHR ''A'' CHR ''Z'' c \<or> between CHR ''a'' CHR ''z'' c
                 \<or> c = CHR 0xAA \<or> c = CHR 0xB5 \<or> c = CHR 0xBA
                 \<or> between (CHR 0xC0) (CHR 0xD6) c \<or> between (CHR 0xD8) (CHR 0xF6) c
                 \<or> between (CHR 0xF8) (CHR 0xFF) c)"

definition is_numeric :: "char \<Rightarrow> bool" where
  "is_numeric c = (is_decimal c \<or> c = CHR 0xB2 \<or> c = CHR 0xB3 \<or> c = CHR 0xB9
                   \<or> between (CHR 0xBC) (CHR 0xBE) c)"

definition is_alnum :: "char \<Rightarrow> bool" where
  "is_alnum c = (is_alpha c \<or> is_numeric c)"

definition is_word :: "char \<Rightarrow> bool" where
  "is_word c = (is_alnum c \<or> c = CHR ''_'')"

definition lower_char :: "char \<Rightarrow> char" where
  "lower_char c = (if is_upper c then char_of (of_char c + (32 :: nat)) else c)"

text \<open>\<open>str.lower()\<close>\<close>

definition str_lower :: "string \<Rightarrow> string" where
  "str_lower s = map lower_char s"

text \<open>\<open>str.strip()\<close>: white space is removed at both ends.\<close>

definition str_strip :: "string \<Rightarrow> string" where
  "str_strip s = rev (dropWhile is_space (rev (dropWhile is_space s)))"

text \<open>\<open>w in s\<close> on strings: \<open>w\<close> occurs in \<open>s\<close> as a contiguous substring.\<close>

primrec str_in :: "string \<Rightarrow> string \<Rightarrow> bool" where
  "str_in w [] = (w = [])"
| "str_in w (c # cs) = (prefix w (c # cs) \<or> str_in w cs)"

text \<open>
  \<open>s.count(w)\<close>: the number of non-overlapping occurrences of \<open>w\<close> in \<open>s\<close>, found
  from left to right; for the empty \<open>w\<close> Python answers \<open>len(s) + 1\<close>.
\<close>

function str_count :: "string \<Rightarrow> string \<Rightarrow> int" where
  "str_count s w =
     (if w = [] then int (length s) + 1
      else if s = [] then 0
      else if prefix w s then 1 + str_count (drop (length w) s) w
      else str_count (tl s) w)"
  by pat_completeness auto
termination
  by (relation "measure (\<lambda>(s, w). length s)") auto

declare str_count.simps [simp del]

section \<open>Regular expressions\<close>

text \<open>
  The patterns of the program use literals, character classes, sequence, alternation and
  the greedy operators \<open>?\<close>, \<open>*\<close>, \<open>+\<close>. CPython's engine is a backtracking matcher: of
  two alternatives it tries the left one first, and a greedy operator tries one more
  iteration before it tries to stop.
\<close>

datatype item = Ch char | Range char char | Word | Space | Digit

fun item_has :: "item \<Rightarrow> char \<Rightarrow> bool" where
  "item_has (Ch a) c = (c = a)"
| "item_has (Range lo hi) c = between lo hi c"
| "item_has Word c = is_word c"
| "item_has Space c = is_space c"
| "item_has Digit c = is_decimal c"

definition in_class :: "item list \<Rightarrow> char \<Rightarrow> bool" where
  "in_class its c = list_ex (\<lambda>i. item_has i c) its"

datatype regex =
    Lit string
  | Set "item list"
  | NSet "item list"
  | Seq regex regex
  | Alt regex regex
  | Opt regex
  | Star regex
  | Plus regex

fun seqs :: "regex list \<Rightarrow> regex" where
  "seqs [] = Lit []"
| "seqs [r] = r"
| "seqs (r # rs) = Seq r (seqs rs)"

fun alts :: "regex list \<Rightarrow> regex" where
  "alts [] = Set []"
| "alts [r] = r"
| "alts (r # rs) = Alt r (alts rs)"

text \<open>
  The iteration of a greedy loop. \<open>f s\<close> lists what is left of \<open>s\<close> after one
  iteration of the body, in the order the engine tries; after each iteration the loop is
  tried again before the position is accepted. An iteration that consumed nothing is not
  repeated.
\<close>

fun loop :: "(string \<Rightarrow> string list) \<Rightarrow> string \<Rightarrow> string list"
  and loop_each :: "(string \<Rightarrow> string list) \<Rightarrow> string \<Rightarrow> string list \<Rightarrow> string list" where
  "loop f s = loop_each f s (f s)"
| "loop_each f s [] = []"
| "loop_each f s (t # ts) =
     (if length t < length s then loop f t else []) @ t # loop_each f s ts"

declare loop.simps [simp del]

text \<open>
  \<open>ends r s\<close> lists the rests of \<open>s\<close> after every way \<open>r\<close> matches a prefix of
  \<open>s\<close>, in the order the backtracking engine finds them: the head of the list is the match
  the engine reports at this position, the empty list means no match here.
\<close>

primrec ends :: "regex \<Rightarrow> string \<Rightarrow> string list" where
  "ends (Lit w) s = (if prefix w s then [drop (length w) s] else [])"
| "ends (Set its) s = (case s of [] \<Rightarrow> [] | c # cs \<Rightarrow> if in_class its c then [cs] else [])"
| "ends (NSet its) s = (case s of [] \<Rightarrow> [] | c # cs \<Rightarrow> if in_class its c then [] else [cs])"
| "ends (Seq a b) s = concat (map (ends b) (ends a s))"
| "ends (Alt a b) s = ends a s @ ends b s"
| "ends (Opt a) s = ends a s @ [s]"
| "ends (Star a) s = loop (ends a) s @ [s]"
| "ends (Plus a) s = loop (ends a) s"

text \<open>
  \<open>re.findall(r, s)\<close> for a pattern without capturing groups: the matches found by
  scanning from left to right, each search starting where the last match ended.
\<close>

function re_findall :: "regex \<Rightarrow> string \<Rightarrow> string list" where
  "re_findall r s =
     (case ends r s of
        [] \<Rightarrow> (case s of [] \<Rightarrow> [] | c # cs \<Rightarrow> re_findall r cs)
      | t # _ \<Rightarrow>
          if length t < length s then take (length s - length t) s # re_findall r t
          else [] # (case s of [] \<Rightarrow> [] | c # cs \<Rightarrow> re_findall r cs))"
  by pat_completeness auto
termination
  by (relation "measure (\<lambda>(r, s). length s)") auto

declare re_findall.simps [simp del]

text \<open>\<open>re.search(r, s)\<close> read as a truth value: \<open>r\<close> matches at some position of \<open>s\<close>.\<close>

primrec re_search :: "regex \<Rightarrow> string \<Rightarrow> bool" where
  "re_search r [] = (ends r [] \<noteq> [])"
| "re_search r (c # cs) = (ends r (c # cs) \<noteq> [] \<or> re_search r cs)"

text \<open>\<open>re.sub(r, rep, s)\<close> for a replacement without group references.\<close>

function re_sub :: "regex \<Rightarrow> string \<Rightarrow> string \<Rightarrow> string" where
  "re_sub r rep s =
     (case ends r s of
        [] \<Rightarrow> (case s of [] \<Rightarrow> [] | c # cs \<Rightarrow> c # re_sub r rep cs)
      | t # _ \<Rightarrow>
          if length t < length s then rep @ re_sub r rep t
          else rep @ (case s of [] \<Rightarrow> [] | c # cs \<Rightarrow> c # re_sub r rep cs))"
  by pat_completeness auto
termination
  by (relation "measure (\<lambda>(r, rep, s). length s)") auto

declare re_sub.simps [simp del]

text \<open>
  A pattern that cannot match the empty string. The patterns of this program are of that
  kind, so the branches of \<open>re_findall\<close> and \<open>re_sub\<close> for an empty match are never
  taken here.
\<close>

fun consumes :: "regex \<Rightarrow> bool" where
  "consumes (Lit w) = (w \<noteq> [])"
| "consumes (Set its) = True"
| "consumes (NSet its) = True"
| "consumes (Seq a b) = (consumes a \<or> consumes b)"
| "consumes (Alt a b) = (consumes a \<and> consumes b)"
| "consumes (Opt a) = False"
| "consumes (Star a) = False"
| "consumes (Plus a) = consumes a"

section \<open>The detector\<close>

subsection \<open>Text normalisation\<close>

text \<open>
  \<^verbatim>\<open>text = text.lower()
text = re.sub(r'[^\w\s]', ' ', text)
text = re.sub(r'\s+', ' ', text).strip()\<close>
\<close>

definition preprocess_text :: "string \<Rightarrow> string" where
  "preprocess_text text =
     str_strip (re_sub (Plus (Set [Space])) '' ''
       (re_sub (NSet [Word, Space]) '' '' (str_lower text)))"

subsection \<open>URL extraction\<close>

definition letters :: "item list" where
  "letters = [Range CHR ''a'' CHR ''z'', Range CHR ''A'' CHR ''Z'']"

definition digits :: "item list" where
  "digits = [Range CHR ''0'' CHR ''9'']"

definition hex_digit :: regex where
  "hex_digit = Set [Range CHR ''0'' CHR ''9'', Range CHR ''a'' CHR ''f'', Range CHR ''A'' CHR ''F'']"

text \<open>
  \<^verbatim>\<open>http[s]?://(?:[a-zA-Z]|[0-9]|[$-_@.&+]|[!*\\(\\),]|(?:%[0-9a-fA-F][0-9a-fA-F]))+\<close>
  In the third class \<open>$-_\<close> is a range; in the fourth the pattern names the backslash
  (code point 0x5C) twice.
\<close>

definition url_pattern :: regex where
  "url_pattern =
     seqs [Lit ''http'', Opt (Set [Ch CHR ''s'']), Lit ''://'',
       Plus (alts
         [Set letters,
          Set digits,
          Set [Range CHR ''$'' CHR ''_'', Ch CHR ''@'', Ch CHR ''.'', Ch CHR ''&'', Ch CHR ''+''],
          Set [Ch CHR ''!'', Ch CHR ''*'', Ch (CHR 0x5C), Ch CHR ''('', Ch (CHR 0x5C),
               Ch CHR '')'', Ch CHR '',''],
          seqs [Lit ''%'', hex_digit, hex_digit]])]"

text \<open>
  \<^verbatim>\<open>(?:www\.|[a-zA-Z0-9-]+\.(?:com|org|net|in|co|io|ai|app|xyz|info|biz|tk|ml|ga|cf|gq))[^\s]*\<close>
\<close>

definition url_pattern_simple :: regex where
  "url_pattern_simple =
     Seq (Alt (Lit ''www.'')
            (seqs [Plus (Set (letters @ digits @ [Ch CHR ''-''])), Lit ''.'',
               alts (map Lit [''com'', ''org'', ''net'', ''in'', ''co'', ''io'', ''ai'', ''app'',
                              ''xyz'', ''info'', ''biz'', ''tk'', ''ml'', ''ga'', ''cf'', ''gq''])]))
         (Star (NSet [Space]))"

text \<open>
  \<^verbatim>\<open>(?:bit\.ly|tinyurl\.com|goo\.gl|ow\.ly|t\.co|cutt\.ly)/[a-zA-Z0-9]+\<close>
\<close>

definition shortened_pattern :: regex where
  "shortened_pattern =
     seqs [alts (map Lit [''bit.ly'', ''tinyurl.com'', ''goo.gl'', ''ow.ly'', ''t.co'', ''cutt.ly'']),
           Lit ''/'', Plus (Set (letters @ digits))]"

text \<open>
  \<open>list(set(urls))\<close>: Python leaves the order of the result open (it follows the
  hashes of the strings). The model keeps the last occurrence of each match, in the order
  of the matches; nothing below depends on that order.
\<close>

definition extract_urls :: "string \<Rightarrow> string list" where
  "extract_urls text =
     remdups (re_findall url_pattern text @ re_findall url_pattern_simple text
              @ re_findall shortened_pattern text)"

subsection \<open>URL analysis\<close>

record UrlAnalysis =
  url :: string
  suspicion_score :: int
  is_suspicious :: bool
  reasons :: "string list"

text \<open>
  One rule of the scorer: \<^verbatim>\<open>if cond: suspicion_score += pts; reasons.append(reason)\<close>,
  on the pair of the two local variables.
\<close>

definition hit :: "bool \<Rightarrow> int \<Rightarrow> string \<Rightarrow> int \<times> string list \<Rightarrow> int \<times> string list" where
  "hit cond pts reason st = (if cond then (fst st + pts, snd st @ [reason]) else st)"

definition phishing_keywords :: "string list" where
  "phishing_keywords =
     [''verify'', ''login'', ''account'', ''secure'', ''update'', ''confirm'',
      ''bank'', ''paypal'', ''amazon'', ''suspended'', ''urgent'', ''click'',
      ''prize'', ''winner'', ''free'', ''claim'', ''limited'', ''offer'']"

definition shorteners :: "string list" where
  "shorteners = [''bit.ly'', ''tinyurl'', ''goo.gl'', ''t.co'', ''cutt.ly'']"

definition suspicious_tlds :: "string list" where
  "suspicious_tlds = [''.tk'', ''.ml'', ''.ga'', ''.cf'', ''.gq'', ''.xyz'', ''.top'']"

text \<open>\<^verbatim>\<open>\d{1,3}\<close>, greedy: one digit, then up to two more.\<close>

definition digits_1_3 :: regex where
  "digits_1_3 = Seq (Set [Digit]) (Opt (Seq (Set [Digit]) (Opt (Set [Digit]))))"

text \<open>\<^verbatim>\<open>\d{1,3}\.\d{1,3}\.\d{1,3}\.\d{1,3}\<close>\<close>

definition ip_pattern :: regex where
  "ip_pattern =
     seqs [digits_1_3, Lit ''.'', digits_1_3, Lit ''.'', digits_1_3, Lit ''.'', digits_1_3]"

text \<open>The rules of \<open>analyze_url\<close> in the order of the source, before the clamp.\<close>

definition score_rules :: "string \<Rightarrow> int \<times> string list" where
  "score_rules u =
     (let url_lower = str_lower u;
          st = foldl (\<lambda>st keyword.
                 hit (str_in keyword url_lower) 15 (''Contains keyword: '' @ keyword) st)
                 (0, []) phishing_keywords;
          st = hit (list_ex (\<lambda>shortener. str_in shortener url_lower) shorteners)
                 20 ''Shortened URL'' st;
          st = hit (str_in ''@'' u) 25 ''Contains @ symbol'' st;
          st = hit (str_count u ''//'' > 1) 20 ''Multiple slashes'' st;
          st = hit (list_ex (\<lambda>tld. str_in tld url_lower) suspicious_tlds)
                 15 ''Suspicious TLD'' st;
          st = hit (re_search ip_pattern u) 20 ''IP address in URL'' st;
          st = hit (length u > 100) 10 ''Unusually long URL'' st;
          st = hit (str_count url_lower ''-'' > 3) 10 ''Multiple hyphens'' st
      in st)"

definition analyze_url :: "string \<Rightarrow> UrlAnalysis" where
  "analyze_url u =
     (let (score, rs) = score_rules u;
          score = min score 100
      in \<lparr>url = u, suspicion_score = score, is_suspicious = (score \<ge> 40), reasons = rs\<rparr>)"

subsection \<open>Prediction\<close>

datatype error = ValueError string | NotFittedError | IndexError

text \<open>
  The detector object. The fitted \<open>TfidfVectorizer\<close> and \<open>RandomForestClassifier\<close> are
  library objects: a fitted vectorizer is the function \<open>transform\<close> computes on one
  text, a fitted classifier is the function \<open>predict_proba\<close> computes on one feature
  vector (its row of class probabilities); \<open>None\<close> is the object before \<open>fit\<close>, whose
  methods raise \<open>NotFittedError\<close>.
\<close>

record 'x ScamDetector =
  model_dir :: string
  vectorizer :: "(string \<Rightarrow> 'x) option"
  classifier :: "('x \<Rightarrow> real list) option"
  is_trained :: bool


text \<open>
  The reasons of a prediction. The first is the f-string
  \<^verbatim>\<open>f"High scam probability in text ({text_scam_prob:.2%})"\<close>, kept with the number it
  prints.
\<close>

datatype reason =
    High_scam_probability_in_text real
  | Contains_suspicious_URLs
  | Message_appears_safe

record DetectionResult =
  text' :: string
  is_scam :: bool
  confidence :: real
  text_scam_probability :: real
  text_safe_probability :: real
  urls_found :: nat
  url_analyses :: "UrlAnalysis list"
  has_suspicious_urls :: bool
  max_url_suspicion_score :: int
  prediction_reasons :: "reason list"
  verdict :: string

text \<open>\<open>max(xs, default=d)\<close>\<close>

definition max_default :: "int list \<Rightarrow> int \<Rightarrow> int" where
  "max_default xs d = (case xs of [] \<Rightarrow> d | x # ys \<Rightarrow> foldl max x ys)"

text \<open>\<^verbatim>\<open>combined_score = (text_scam_prob * 0.6) + (url_risk_factor * 0.4)\<close>\<close>

definition combined_score :: "real \<Rightarrow> int \<Rightarrow> real" where
  "combined_score text_scam_prob max_url_score =
     (let url_risk_factor = real_of_int max_url_score / 100
      in text_scam_prob * 0.6 + url_risk_factor * 0.4)"

text \<open>
  The verdict and the score after the override:
  \<^verbatim>\<open>final_prediction = 1 if combined_score >= 0.5 else 0
if has_suspicious_urls and final_prediction == 0:
    final_prediction = 1
    combined_score = max(combined_score, 0.6)\<close>
\<close>

definition override :: "bool \<Rightarrow> real \<Rightarrow> int \<times> real" where
  "override has_suspicious c =
     (let final_prediction = (if c \<ge> 0.5 then 1 else 0)
      in if has_suspicious \<and> final_prediction = 0 then (1, max c 0.6)
         else (final_prediction, c))"

definition build_reasons :: "real \<Rightarrow> bool \<Rightarrow> int \<Rightarrow> reason list" where
  "build_reasons text_scam_prob has_suspicious final_prediction =
     (if text_scam_prob > 0.6 then [High_scam_probability_in_text text_scam_prob] else [])
     @ (if has_suspicious then [Contains_suspicious_URLs] else [])
     @ (if final_prediction = 0 then [Message_appears_safe] else [])"

text \<open>
  \<open>predict\<close>. The value of \<open>self.classifier.predict(X)[0]\<close> is not used by the source
  and is left out. \<open>probability[1]\<close> raises \<open>IndexError\<close> on a row with fewer than two
  classes.
\<close>

definition predict :: "'x ScamDetector \<Rightarrow> string \<Rightarrow> error + DetectionResult" where
  "predict self txt =
     (if \<not> is_trained self
      then Inl (ValueError ''Model not trained. Call train() first or load a trained model.'')
      else case vectorizer self of None \<Rightarrow> Inl NotFittedError | Some transform \<Rightarrow>
        (case classifier self of None \<Rightarrow> Inl NotFittedError | Some predict_proba \<Rightarrow>
          (let processed_text = preprocess_text txt;
               probability = predict_proba (transform processed_text);
               urls = extract_urls txt;
               analyses = map analyze_url urls;
               max_url_score = max_default (map suspicion_score analyses) 0;
               has_suspicious = list_ex is_suspicious analyses
           in if length probability < 2 then Inl IndexError
              else
                (let text_scam_prob = probability ! 1;
                     (final_prediction, score) =
                        override has_suspicious (combined_score text_scam_prob max_url_score)
                 in Inr \<lparr>text' = txt,
                         is_scam = (final_prediction \<noteq> 0),
                         confidence = score,
                         text_scam_probability = text_scam_prob,
                         text_safe_probability = probability ! 0,
                         urls_found = length urls,
                         url_analyses = analyses,
                         has_suspicious_urls = has_suspicious,
                         max_url_suspicion_score = max_url_score,
                         prediction_reasons =
                           build_reasons text_scam_prob has_suspicious final_prediction,
                         verdict = (if final_prediction = 1 then ''SCAM'' else ''SAFE'')\<rparr>))))"

subsection \<open>Saving the model\<close>




subsection \<open>A fitted detector to evaluate on\<close>

text \<open>
  A classifier whose row of probabilities is \<open>[1 - p, p]\<close> on every input, behind the
  identity as feature transform.
\<close>

definition const_proba :: "real \<Rightarrow> string \<Rightarrow> real list" where
  "const_proba p x = [1 - p, p]"

definition fitted :: "real \<Rightarrow> string ScamDetector" where
  "fitted p = \<lparr>model_dir = ''./models'', vectorizer = Some id,
               classifier = Some (const_proba p), is_trained = True\<rparr>"

subsection \<open>The invariant of the scoring rules\<close>

text \<open>
  Between two rules of \<open>analyze_url\<close> the score is not negative, and it is zero exactly
  when no reason has been recorded.
\<close>

definition rules_inv :: "int \<times> string list \<Rightarrow> bool" where
  "rules_inv st = (0 \<le> fst st \<and> (snd st = []) = (fst st = 0))"

subsection \<open>Texts with single spaces\<close>


section \<open>Properties of the matcher\<close>

lemma loop_length_le:
  "(\<forall>s t. t \<in> set (f s) \<longrightarrow> length t \<le> length s) \<Longrightarrow>
     t \<in> set (loop f s) \<Longrightarrow> length t \<le> length s"
  "(\<forall>s t. t \<in> set (f s) \<longrightarrow> length t \<le> length s) \<Longrightarrow>
     t \<in> set (loop_each f s ts) \<Longrightarrow> (\<forall>u \<in> set ts. length u \<le> length s) \<Longrightarrow>
     length t \<le> length s"
proof (induction f s and f s ts arbitrary: t and t rule: loop_loop_each.induct)
  case (1 f s)
  from "1.prems"(2) have m: "t \<in> set (loop_each f s (f s))"
    by (subst (asm) loop.simps)
  show ?case
    using "1.IH" [OF "1.prems"(1) m] "1.prems"(1) by blast
next
  case (2 f s)
  then show ?case by simp
next
  case (3 f s u us)
  show ?case
  proof (cases "t \<in> set (loop f u) \<and> length u < length s")
    case True
    then show ?thesis
      using "3.IH"(1) [OF _ "3.prems"(1), of t] by fastforce
  next
    case False
    then have "t = u \<or> t \<in> set (loop_each f s us)"
      using "3.prems"(2) by (auto split: if_splits)
    then show ?thesis
      using "3.IH"(2) [OF "3.prems"(1), of t] "3.prems"(3) by auto
  qed
qed

lemma loop_length_less:
  "(\<forall>s t. t \<in> set (f s) \<longrightarrow> length t < length s) \<Longrightarrow>
     t \<in> set (loop f s) \<Longrightarrow> length t < length s"
  "(\<forall>s t. t \<in> set (f s) \<longrightarrow> length t < length s) \<Longrightarrow>
     t \<in> set (loop_each f s ts) \<Longrightarrow> (\<forall>u \<in> set ts. length u < length s) \<Longrightarrow>
     length t < length s"
proof (induction f s and f s ts arbitrary: t and t rule: loop_loop_each.induct)
  case (1 f s)
  from "1.prems"(2) have m: "t \<in> set (loop_each f s (f s))"
    by (subst (asm) loop.simps)
  show ?case
    using "1.IH" [OF "1.prems"(1) m] "1.prems"(1) by blast
next
  case (2 f s)
  then show ?case by simp
next
  case (3 f s u us)
  show ?case
  proof (cases "t \<in> set (loop f u) \<and> length u < length s")
    case True
    then show ?thesis
      using "3.IH"(1) [OF _ "3.prems"(1), of t] by fastforce
  next
    case False
    then have "t = u \<or> t \<in> set (loop_each f s us)"
      using "3.prems"(2) by (auto split: if_splits)
    then show ?thesis
      using "3.IH"(2) [OF "3.prems"(1), of t] "3.prems"(3) by auto
  qed
qed

lemma ends_length_le: "t \<in> set (ends r s) \<Longrightarrow> length t \<le> length s"
proof (induction r arbitrary: s t)
  case (Seq a b)
  then show ?case by fastforce
next
  case (Star a)
  then show ?case
    using loop_length_le(1) [of "ends a" t s] by auto
next
  case (Plus a)
  then show ?case
    using loop_length_le(1) [of "ends a" t s] by auto
qed (auto split: if_splits list.splits)

lemma ends_length_less: "consumes r \<Longrightarrow> t \<in> set (ends r s) \<Longrightarrow> length t < length s"
proof (induction r arbitrary: s t)
  case (Lit w)
  then show ?case
    by (cases s) (auto split: if_splits)
next
  case (Seq a b)
  from Seq.prems(2) obtain u where u: "u \<in> set (ends a s)" "t \<in> set (ends b u)"
    by auto
  show ?case
  proof (cases "consumes a")
    case True
    then show ?thesis
      using Seq.IH(1) [OF True u(1)] ends_length_le [OF u(2)] by simp
  next
    case False
    with Seq.prems(1) have b: "consumes b" by simp
    show ?thesis
      using Seq.IH(2) [OF b u(2)] ends_length_le [OF u(1)] by simp
  qed
next
  case (Plus a)
  then show ?case
    using loop_length_less(1) [of "ends a" t s] by auto
qed (auto split: if_splits list.splits)

lemma re_findall_consuming:
  "consumes r \<Longrightarrow>
   re_findall r s =
     (case ends r s of
        [] \<Rightarrow> (case s of [] \<Rightarrow> [] | c # cs \<Rightarrow> re_findall r cs)
      | t # _ \<Rightarrow> take (length s - length t) s # re_findall r t)"
  using ends_length_less [of r _ s]
  by (subst re_findall.simps) (auto split: list.splits)

lemma re_findall_nonempty: "consumes r \<Longrightarrow> [] \<notin> set (re_findall r s)"
proof (induction s rule: length_induct)
  case (1 s)
  show ?case
  proof (cases "ends r s")
    case Nil
    with 1 show ?thesis
      by (subst re_findall_consuming) (auto split: list.splits)
  next
    case (Cons t ts)
    then have "length t < length s"
      using ends_length_less [OF 1(2), of t s] by simp
    with 1 Cons show ?thesis
      by (subst re_findall_consuming) auto
  qed
qed

lemma patterns_consume:
  "consumes url_pattern" "consumes url_pattern_simple" "consumes shortened_pattern"
  "consumes (NSet [Word, Space])" "consumes (Plus (Set [Space]))"
  by (simp_all add: url_pattern_def url_pattern_simple_def shortened_pattern_def)

lemma extract_urls_nonempty: "[] \<notin> set (extract_urls s)"
  by (simp add: extract_urls_def re_findall_nonempty patterns_consume)

section \<open>Properties of the URL scorer\<close>

lemma rules_inv_hit: "0 < pts \<Longrightarrow> rules_inv st \<Longrightarrow> rules_inv (hit cond pts reason st)"
  by (auto simp: rules_inv_def hit_def)

lemma rules_inv_keywords:
  "rules_inv st \<Longrightarrow>
   rules_inv (foldl (\<lambda>st keyword. hit (P keyword) 15 (R keyword) st) st kws)"
  by (induction kws arbitrary: st) (simp_all add: rules_inv_hit)

lemma rules_inv_score_rules: "rules_inv (score_rules u)"
proof -
  have start: "rules_inv (0, [])"
    by (simp add: rules_inv_def)
  show ?thesis
    unfolding score_rules_def Let_def
    by (intro rules_inv_hit rules_inv_keywords start) simp_all
qed

lemma analyze_url_fields:
  "url (analyze_url u) = u"
  "suspicion_score (analyze_url u) = min (fst (score_rules u)) 100"
  "is_suspicious (analyze_url u) = (40 \<le> min (fst (score_rules u)) 100)"
  "reasons (analyze_url u) = snd (score_rules u)"
  by (simp_all add: analyze_url_def Let_def split: prod.split)

text \<open>
  Claim C6. For every URL string \<open>u\<close>, the suspicion score of \<open>analyze_url u\<close> lies
  between 0 and 100, and \<open>is_suspicious\<close> is true exactly when the score is at least 40.
\<close>

theorem analyze_url_score_range:
  "0 \<le> suspicion_score (analyze_url u) \<and> suspicion_score (analyze_url u) \<le> 100
   \<and> is_suspicious (analyze_url u) = (suspicion_score (analyze_url u) \<ge> 40)"
  using rules_inv_score_rules [of u] by (simp add: analyze_url_fields rules_inv_def)

theorem analyze_url_score_range_witness:
  "suspicion_score (analyze_url ''a.tk/@'') = 40 \<and> is_suspicious (analyze_url ''a.tk/@'')"
proof -
  have "suspicion_score (analyze_url ''a.tk/@'') = 40"
    by code_simp
  then show ?thesis
    using analyze_url_score_range [of "''a.tk/@''"] by simp
qed

text \<open>
  Claim C10. For every URL string \<open>u\<close>, the reasons of \<open>analyze_url u\<close> are non-empty
  if and only if the suspicion score is positive; in particular a suspicious URL has at
  least one reason.
\<close>

theorem analyze_url_reasons_iff_positive:
  "(reasons (analyze_url u) \<noteq> []) = (suspicion_score (analyze_url u) > 0)
   \<and> (is_suspicious (analyze_url u) \<longrightarrow> reasons (analyze_url u) \<noteq> [])"
  using rules_inv_score_rules [of u] by (auto simp add: analyze_url_fields rules_inv_def)

theorem analyze_url_reasons_witness:
  "reasons (analyze_url ''http://192.168.1.1/invest'') = [''IP address in URL'']
   \<and> suspicion_score (analyze_url ''http://192.168.1.1/invest'') > 0"
proof -
  have "reasons (analyze_url ''http://192.168.1.1/invest'') = [''IP address in URL'']"
    by code_simp
  then show ?thesis
    using analyze_url_reasons_iff_positive [of "''http://192.168.1.1/invest''"] by simp
qed

lemma hit_keeps: "r \<in> set (snd st) \<Longrightarrow> r \<in> set (snd (hit cond pts reason st))"
  by (simp add: hit_def)

lemma hit_adds: "cond \<Longrightarrow> reason \<in> set (snd (hit cond pts reason st))"
  by (simp add: hit_def)

text \<open>
  The shortener rule records its reason for every URL that contains one of the hosts of the
  list of \<open>analyze_url\<close>.
\<close>

lemma shortener_rule_fires:
  assumes "list_ex (\<lambda>shortener. str_in shortener (str_lower u)) shorteners"
  shows "''Shortened URL'' \<in> set (reasons (analyze_url u))"
  unfolding analyze_url_fields score_rules_def Let_def
  by (rule hit_keeps, rule hit_keeps, rule hit_keeps, rule hit_keeps, rule hit_keeps,
      rule hit_keeps, rule hit_adds, rule assms)

text \<open>
  Claim C4. A URL that contains a known shortener host gets the 20 points of the shortener
  rule and the reason \<open>Shortened URL\<close>. The extractor knows the host \<open>ow.ly\<close> as a
  shortener and returns \<open>ow.ly/abc\<close> as a URL, but the list of \<open>analyze_url\<close> does not
  have it: the URL gets no points and no reason.
\<close>

theorem analyze_url_misses_ow_ly:
  "str_in ''ow.ly'' (str_lower ''ow.ly/abc'')
   \<and> extract_urls ''ow.ly/abc'' = [''ow.ly/abc'']
   \<and> analyze_url ''ow.ly/abc'' =
       \<lparr>url = ''ow.ly/abc'', suspicion_score = 0, is_suspicious = False, reasons = []\<rparr>"
  by code_simp

section \<open>Properties of the URL extractor\<close>

lemma count_list_distinct:
  "distinct xs \<Longrightarrow> count_list xs u = (if u \<in> set xs then 1 else 0)"
  by (induction xs) auto

text \<open>
  Claim C8. For every string \<open>s\<close>, \<open>extract_urls s\<close> has no duplicate elements; its set
  of elements is the set of the matches of the three patterns in \<open>s\<close>, so two calls on the
  same string yield the same set; and every URL of the output occurs in it once, however
  often it is matched in the text.
\<close>

theorem extract_urls_distinct:
  "distinct (extract_urls s)
   \<and> set (extract_urls s) =
       set (re_findall url_pattern s) \<union> set (re_findall url_pattern_simple s)
       \<union> set (re_findall shortened_pattern s)
   \<and> count_list (extract_urls s) u = (if u \<in> set (extract_urls s) then 1 else 0)"
proof -
  have d: "distinct (extract_urls s)"
    by (simp add: extract_urls_def)
  moreover have "set (extract_urls s) =
       set (re_findall url_pattern s) \<union> set (re_findall url_pattern_simple s)
       \<union> set (re_findall shortened_pattern s)"
    by (simp add: extract_urls_def Un_assoc)
  ultimately show ?thesis
    using count_list_distinct [OF d, of u] by simp
qed

theorem extract_urls_distinct_witness:
  "extract_urls ''see http://a.com and http://a.com'' = [''http://a.com'', ''a.com'']
   \<and> count_list (extract_urls ''see http://a.com and http://a.com'') ''http://a.com'' = 1"
proof -
  have e: "extract_urls ''see http://a.com and http://a.com'' = [''http://a.com'', ''a.com'']"
    by code_simp
  show ?thesis
    using extract_urls_distinct [of "''see http://a.com and http://a.com''" "''http://a.com''"]
    by (simp add: e)
qed

section \<open>Properties of the prediction\<close>

lemma override_cases:
  "override h c = (if c \<ge> 0.5 then (1, c) else if h then (1, 0.6) else (0, c))"
  by (simp add: override_def Let_def max_def)

lemma override_fst: "fst (override h c) = (if c \<ge> 0.5 \<or> h then 1 else 0)"
  by (simp add: override_cases)



lemma predict_fields:
  assumes "predict d txt = Inr r"
  shows "is_trained d"
    and "text' r = txt"
    and "url_analyses r = map analyze_url (extract_urls txt)"
    and "urls_found r = length (extract_urls txt)"
    and "has_suspicious_urls r = list_ex is_suspicious (url_analyses r)"
    and "max_url_suspicion_score r = max_default (map suspicion_score (url_analyses r)) 0"
    and "is_scam r =
           (fst (override (has_suspicious_urls r)
              (combined_score (text_scam_probability r) (max_url_suspicion_score r))) \<noteq> 0)"
    and "confidence r =
           snd (override (has_suspicious_urls r)
              (combined_score (text_scam_probability r) (max_url_suspicion_score r)))"
    and "prediction_reasons r =
           build_reasons (text_scam_probability r) (has_suspicious_urls r)
             (fst (override (has_suspicious_urls r)
                (combined_score (text_scam_probability r) (max_url_suspicion_score r))))"
  using assms
  by (auto simp add: predict_def Let_def split: if_splits option.splits prod.splits)

lemma predict_half_url:
  "predict (fitted (1 / 2)) ''a.tk/@'' =
     Inr \<lparr>text' = ''a.tk/@'', is_scam = True, confidence = 3 / 5,
        text_scam_probability = 1 / 2, text_safe_probability = 1 / 2, urls_found = 1,
        url_analyses =
          [\<lparr>url = ''a.tk/@'', suspicion_score = 40, is_suspicious = True,
             reasons = [''Contains @ symbol'', ''Suspicious TLD'']\<rparr>],
        has_suspicious_urls = True, max_url_suspicion_score = 40,
        prediction_reasons = [Contains_suspicious_URLs], verdict = ''SCAM''\<rparr>"
  by code_simp

lemma predict_half_hi:
  "predict (fitted (1 / 2)) ''hi'' =
     Inr \<lparr>text' = ''hi'', is_scam = False, confidence = 3 / 10,
        text_scam_probability = 1 / 2, text_safe_probability = 1 / 2, urls_found = 0,
        url_analyses = [], has_suspicious_urls = False, max_url_suspicion_score = 0,
        prediction_reasons = [Message_appears_safe], verdict = ''SAFE''\<rparr>"
  by code_simp



text \<open>
  Claim C1 as stated fails: with a suspicious URL and a combined score between 0.5 and 0.6
  the verdict is scam before the override, the override does not run, and the confidence
  stays below 0.6.
\<close>

theorem suspicious_url_low_confidence:
  "predict (fitted (3 / 5)) ''a.tk/@'' =
     Inr \<lparr>text' = ''a.tk/@'', is_scam = True, confidence = 13 / 25,
        text_scam_probability = 3 / 5, text_safe_probability = 2 / 5, urls_found = 1,
        url_analyses =
          [\<lparr>url = ''a.tk/@'', suspicion_score = 40, is_suspicious = True,
             reasons = [''Contains @ symbol'', ''Suspicious TLD'']\<rparr>],
        has_suspicious_urls = True, max_url_suspicion_score = 40,
        prediction_reasons = [Contains_suspicious_URLs], verdict = ''SCAM''\<rparr>
   \<and> (13 / 25 :: real) < 0.6"
  by code_simp

text \<open>
  Claim C1, amended. If an entry of \<open>url_analyses\<close> of the result is suspicious, then
  \<open>is_scam\<close> is true and the confidence is at least 0.5; it is at least 0.6 when the
  combined score before the override is below 0.5.
\<close>

theorem suspicious_url_forces_scam:
  assumes "predict d txt = Inr r"
    and "list_ex is_suspicious (url_analyses r)"
  shows "is_scam r \<and> confidence r \<ge> 0.5
     \<and> (combined_score (text_scam_probability r) (max_url_suspicion_score r) < 0.5
          \<longrightarrow> confidence r \<ge> 0.6)"
  using predict_fields(5,7,8) [OF assms(1)] assms(2)
  by (simp add: override_cases)

theorem suspicious_url_forces_scam_witness:
  "predict (fitted (1 / 2)) ''a.tk/@'' =
     Inr \<lparr>text' = ''a.tk/@'', is_scam = True, confidence = 3 / 5,
        text_scam_probability = 1 / 2, text_safe_probability = 1 / 2, urls_found = 1,
        url_analyses =
          [\<lparr>url = ''a.tk/@'', suspicion_score = 40, is_suspicious = True,
             reasons = [''Contains @ symbol'', ''Suspicious TLD'']\<rparr>],
        has_suspicious_urls = True, max_url_suspicion_score = 40,
        prediction_reasons = [Contains_suspicious_URLs], verdict = ''SCAM''\<rparr>
   \<and> combined_score (1 / 2) 40 < 0.5 \<and> (3 / 5 :: real) \<ge> 0.6"
  using suspicious_url_forces_scam [OF predict_half_url]
  by (simp add: predict_half_url combined_score_def)

text \<open>
  Claim C3 as stated fails: a text scam probability above 0.6 with a combined score below
  0.5 gives the reason for the high text probability together with the reason that the
  message appears safe.
\<close>

theorem high_text_reason_with_safe_reason:
  "predict (fitted (7 / 10)) ''hi'' =
     Inr \<lparr>text' = ''hi'', is_scam = False, confidence = 21 / 50,
        text_scam_probability = 7 / 10, text_safe_probability = 3 / 10, urls_found = 0,
        url_analyses = [], has_suspicious_urls = False, max_url_suspicion_score = 0,
        prediction_reasons = [High_scam_probability_in_text (7 / 10), Message_appears_safe],
        verdict = ''SAFE''\<rparr>"
  by code_simp

text \<open>
  Claim C3, amended. The reason that the message appears safe is in the reasons exactly
  when the final verdict is benign, and it never occurs together with the reason for
  suspicious URLs; it occurs together with the reason for a high text scam probability
  exactly when that probability is above 0.6 and the final verdict is benign.
\<close>

theorem safe_reason_iff_benign:
  assumes "predict d txt = Inr r"
  shows "(Message_appears_safe \<in> set (prediction_reasons r)) = (\<not> is_scam r)
     \<and> \<not> (Contains_suspicious_URLs \<in> set (prediction_reasons r)
           \<and> Message_appears_safe \<in> set (prediction_reasons r))
     \<and> (High_scam_probability_in_text p \<in> set (prediction_reasons r)
           \<and> Message_appears_safe \<in> set (prediction_reasons r))
         = (p = text_scam_probability r \<and> p > 0.6 \<and> \<not> is_scam r)"
  using predict_fields(7,9) [OF assms]
  by (auto simp add: build_reasons_def override_cases split: if_splits)

theorem safe_reason_iff_benign_witness:
  "predict (fitted (1 / 2)) ''hi'' =
     Inr \<lparr>text' = ''hi'', is_scam = False, confidence = 3 / 10,
        text_scam_probability = 1 / 2, text_safe_probability = 1 / 2, urls_found = 0,
        url_analyses = [], has_suspicious_urls = False, max_url_suspicion_score = 0,
        prediction_reasons = [Message_appears_safe], verdict = ''SAFE''\<rparr>
   \<and> Message_appears_safe \<in> set [Message_appears_safe]"
  using safe_reason_iff_benign [OF predict_half_hi, of "1 / 2"]
  by (simp add: predict_half_hi)




section \<open>Properties of the life cycle\<close>




section \<open>Properties of the text normaliser\<close>




lemma space_not_upper: "\<not> is_upper CHR '' ''"
  by (simp add: is_upper_def between_def)
























end
